theory Spec2Isabelle
  imports Main
begin

section \<open>Strings\<close>

text \<open>
  A JavaScript string is a sequence of UTF-16 code units. The model keeps the code units
  below 256 (the Latin-1 range), one \<^typ>\<open>char\<close> each: on these
  \<open>toLowerCase\<close> and \<open>trim\<close> stay inside the range and are given in full.
\<close>

definition lowerChar :: "char \<Rightarrow> char" where
  "lowerChar c =
     (let n = (of_char c :: nat)
      in if (65 \<le> n \<and> n \<le> 90) \<or> (192 \<le> n \<and> n \<le> 222 \<and> n \<noteq> 215)
         then char_of (n + 32) else c)"

definition toLowerCase :: "string \<Rightarrow> string" where
  "toLowerCase s = map lowerChar s"

text \<open>White space and line terminators of ECMAScript below 256: TAB, LF, VT, FF, CR, SP, NBSP.\<close>

definition isWhiteSpace :: "char \<Rightarrow> bool" where
  "isWhiteSpace c = ((of_char c :: nat) \<in> {9, 10, 11, 12, 13, 32, 160})"

definition trim :: "string \<Rightarrow> string" where
  "trim s = rev (dropWhile isWhiteSpace (rev (dropWhile isWhiteSpace s)))"

text \<open>\<open>s.includes(t)\<close>, named \<open>includesStr\<close> here: \<open>t\<close> occurs in \<open>s\<close> as a contiguous run.\<close>

fun startsWith :: "string \<Rightarrow> string \<Rightarrow> bool" where
  "startsWith s [] = True"
| "startsWith [] (d # t) = False"
| "startsWith (c # s) (d # t) = (c = d \<and> startsWith s t)"

fun includesStr :: "string \<Rightarrow> string \<Rightarrow> bool" where
  "includesStr [] t = startsWith [] t"
| "includesStr (c # s) t = (startsWith (c # s) t \<or> includesStr s t)"

section \<open>Schema mapper\<close>

text \<open>\<open>Array.prototype.findIndex\<close>: the first position whose element passes, or -1.\<close>

fun findIndex :: "('a \<Rightarrow> bool) \<Rightarrow> 'a list \<Rightarrow> int" where
  "findIndex P [] = - 1"
| "findIndex P (x # xs) =
     (if P x then 0
      else (let i = findIndex P xs in if i = - 1 then - 1 else i + 1))"

text \<open>
  \<open>findColumnIndex(headers, possibleNames)\<close>: the names are tried in order; each is looked
  for in every header, left to right, as a case-insensitive substring. An empty header is
  falsy and never matches.
\<close>

fun findColumnIndex :: "string list \<Rightarrow> string list \<Rightarrow> int" where
  "findColumnIndex headers [] = - 1"
| "findColumnIndex headers (name # possibleNames) =
     (let index = findIndex (\<lambda>header. header \<noteq> [] \<and>
                     includesStr (toLowerCase header) (toLowerCase name)) headers
      in if index \<noteq> - 1 then index else findColumnIndex headers possibleNames)"

section \<open>Record normalizer\<close>

text \<open>
  A \<open>Date\<close> is its time value in milliseconds; \<open>None\<close> is the time value NaN of an
  Invalid Date.
\<close>

type_synonym date = "int option"

text \<open>The object literal that \<open>getOnboardingData\<close> pushes for a row, field by field.\<close>

record person =
  email :: string
  name :: string
  personalEmail :: string
  phone :: string
  major :: string
  minor :: string
  college :: string
  schoolYear :: string
  company :: string
  position :: string
  location :: string
  linkedin :: string
  github :: string
  portfolio :: string
  semester :: string
  duration :: string
  companyRating :: string
  roleRating :: string
  jobSearchMethod :: string
  industry :: string
  department :: string
  gradYearUpdated :: string
  graduationYear :: string
  currentStatus :: string
  submissionDate :: date
  rowId :: int

text \<open>
  What the run takes from outside the repository: the date parser behind
  \<open>new Date(string)\<close>, whose grammar the language leaves to the implementation, and the
  clock. \<open>now i\<close> is the time \<open>new Date()\<close> gives while the loop is at index \<open>i\<close>,
  \<open>currentYear i\<close> the year \<open>new Date().getFullYear()\<close> gives there.
\<close>

record env =
  parseDate :: "string \<Rightarrow> date"
  now :: "nat \<Rightarrow> int"
  currentYear :: "nat \<Rightarrow> int"

datatype error = EmailColumnNotFound | TypeError

subsection \<open>\<open>parseInt\<close>\<close>

definition digitValue :: "char \<Rightarrow> nat option" where
  "digitValue c =
     (let n = (of_char c :: nat)
      in if 48 \<le> n \<and> n \<le> 57 then Some (n - 48)
         else if 97 \<le> n \<and> n \<le> 122 then Some (n - 87)
         else if 65 \<le> n \<and> n \<le> 90 then Some (n - 55)
         else None)"

definition isDigitIn :: "nat \<Rightarrow> char \<Rightarrow> bool" where
  "isDigitIn R c = (case digitValue c of None \<Rightarrow> False | Some d \<Rightarrow> d < R)"

definition digitsValue :: "nat \<Rightarrow> string \<Rightarrow> nat" where
  "digitsValue R z =
     foldl (\<lambda>acc c. acc * R + (case digitValue c of None \<Rightarrow> 0 | Some d \<Rightarrow> d)) 0 z"

text \<open>
  \<open>parseInt(s)\<close> with no radix: leading white space is skipped, then a sign, then a
  \<open>0x\<close> prefix selects radix 16; the longest run of digits is read, and no digit at all
  gives NaN (\<open>None\<close>). The value is the exact integer (a double rounds it beyond
  2^53, which no comparison with a calendar year can see).
\<close>

definition parseInt :: "string \<Rightarrow> int option" where
  "parseInt s =
     (let S = dropWhile isWhiteSpace s;
          negative = startsWith S ''-'';
          S1 = (if startsWith S ''-'' \<or> startsWith S ''+'' then tl S else S);
          hex = (startsWith S1 ''0x'' \<or> startsWith S1 ''0X'');
          R = (if hex then 16 else 10);
          S2 = (if hex then drop 2 S1 else S1);
          Z = takeWhile (isDigitIn R) S2
      in if Z = [] then None
         else Some ((if negative then - 1 else 1) * int (digitsValue R Z)))"

subsection \<open>Cells of a row\<close>

text \<open>\<open>row[idx]\<close>: \<open>undefined\<close> (\<open>None\<close>) outside the row, also at the index -1.\<close>

definition cell :: "string list \<Rightarrow> int \<Rightarrow> string option" where
  "cell row idx = (if 0 \<le> idx \<and> nat idx < length row then Some (row ! nat idx) else None)"

text \<open>The guard \<open>idx !== -1 && row[idx]\<close>: the cell when it is there and not empty.\<close>

definition presentCell :: "string list \<Rightarrow> int \<Rightarrow> string option" where
  "presentCell row idx =
     (if idx \<noteq> - 1
      then (case cell row idx of None \<Rightarrow> None | Some s \<Rightarrow> if s \<noteq> [] then Some s else None)
      else None)"

text \<open>The expression \<open>idx !== -1 ? (row[idx]?.trim() || '') : ''\<close>.\<close>

definition trimmedCell :: "string list \<Rightarrow> int \<Rightarrow> string" where
  "trimmedCell row idx =
     (if idx \<noteq> - 1 then (case cell row idx of None \<Rightarrow> [] | Some s \<Rightarrow> trim s) else [])"

subsection \<open>Resolved columns\<close>

definition emailIndex :: "string list \<Rightarrow> int" where
  "emailIndex headers = findColumnIndex headers [''Email'', ''email'', ''Email Address'']"

definition nameIndex :: "string list \<Rightarrow> int" where
  "nameIndex headers = findColumnIndex headers [''Name'', ''name'', ''Full Name'', ''Full name'']"

definition companyIndex :: "string list \<Rightarrow> int" where
  "companyIndex headers =
     findColumnIndex headers [''Company'', ''company'', ''Current Company'', ''Employer'']"

definition positionIndex :: "string list \<Rightarrow> int" where
  "positionIndex headers =
     findColumnIndex headers [''Position'', ''position'', ''Job Title'', ''Role'', ''Title'']"

definition locationIndex :: "string list \<Rightarrow> int" where
  "locationIndex headers =
     findColumnIndex headers [''Location'', ''location'', ''City'', ''Where are you based?'']"

definition linkedinIndex :: "string list \<Rightarrow> int" where
  "linkedinIndex headers =
     findColumnIndex headers [''LinkedIn'', ''linkedin'', ''LinkedIn Profile'', ''LinkedIn URL'']"

definition githubIndex :: "string list \<Rightarrow> int" where
  "githubIndex headers =
     findColumnIndex headers [''GitHub'', ''github'', ''GitHub Profile'', ''GitHub URL'']"

definition graduationIndex :: "string list \<Rightarrow> int" where
  "graduationIndex headers =
     findColumnIndex headers [''Graduation Year'', ''graduationYear'', ''Year'', ''Graduation'']"

definition statusIndex :: "string list \<Rightarrow> int" where
  "statusIndex headers =
     findColumnIndex headers [''Status'', ''status'', ''Current Status'', ''Member Status'']"

definition dateIndex :: "string list \<Rightarrow> int" where
  "dateIndex headers =
     findColumnIndex headers [''Timestamp'', ''timestamp'', ''Submission Date'', ''Date'']"

definition personalEmailIndex :: "string list \<Rightarrow> int" where
  "personalEmailIndex headers = findColumnIndex headers [''Personal_Email'']"

definition phoneIndex :: "string list \<Rightarrow> int" where
  "phoneIndex headers = findColumnIndex headers [''Phone_Number'']"

definition majorIndex :: "string list \<Rightarrow> int" where
  "majorIndex headers = findColumnIndex headers [''Major'']"

definition minorIndex :: "string list \<Rightarrow> int" where
  "minorIndex headers = findColumnIndex headers [''Minor'']"

definition collegeIndex :: "string list \<Rightarrow> int" where
  "collegeIndex headers = findColumnIndex headers [''College'']"

definition schoolYearIndex :: "string list \<Rightarrow> int" where
  "schoolYearIndex headers = findColumnIndex headers [''School_Year'']"

definition portfolioIndex :: "string list \<Rightarrow> int" where
  "portfolioIndex headers = findColumnIndex headers [''Portfolio'']"

definition semesterIndex :: "string list \<Rightarrow> int" where
  "semesterIndex headers = findColumnIndex headers [''Semester_Completed'']"

definition durationIndex :: "string list \<Rightarrow> int" where
  "durationIndex headers = findColumnIndex headers [''Duration'']"

definition companyRatingIndex :: "string list \<Rightarrow> int" where
  "companyRatingIndex headers = findColumnIndex headers [''Company_Rating'']"

definition roleRatingIndex :: "string list \<Rightarrow> int" where
  "roleRatingIndex headers = findColumnIndex headers [''Role_Rating'']"

definition jobSearchIndex :: "string list \<Rightarrow> int" where
  "jobSearchIndex headers = findColumnIndex headers [''Job_Search_Method_1'']"

definition industryIndex :: "string list \<Rightarrow> int" where
  "industryIndex headers = findColumnIndex headers [''Industry'']"

definition departmentIndex :: "string list \<Rightarrow> int" where
  "departmentIndex headers = findColumnIndex headers [''Department'']"

definition gradYearUpdatedIndex :: "string list \<Rightarrow> int" where
  "gradYearUpdatedIndex headers = findColumnIndex headers [''Grad Year Updated'']"

subsection \<open>One row\<close>

text \<open>
  The status of a row: the status cell decides when the status column resolved and the
  cell is there and not empty; otherwise the graduation year does, under the same guard
  (a year that does not parse is NaN, and \<open>NaN < currentYear\<close> is false); otherwise
  \<open>'current'\<close>.
\<close>

definition determineStatus :: "env \<Rightarrow> string list \<Rightarrow> nat \<Rightarrow> string list \<Rightarrow> string" where
  "determineStatus e headers i row =
     (case presentCell row (statusIndex headers) of
        Some status \<Rightarrow>
          if includesStr (toLowerCase status) ''alumni'' then ''alumni'' else ''current''
      | None \<Rightarrow>
          (case presentCell row (graduationIndex headers) of
             Some g \<Rightarrow>
               (case parseInt g of
                  Some gradYear \<Rightarrow> if gradYear < currentYear e i then ''alumni'' else ''current''
                | None \<Rightarrow> ''current'')
           | None \<Rightarrow> ''current''))"

definition determineSubmissionDate :: "env \<Rightarrow> string list \<Rightarrow> nat \<Rightarrow> string list \<Rightarrow> date" where
  "determineSubmissionDate e headers i row =
     (case presentCell row (dateIndex headers) of
        Some d \<Rightarrow> parseDate e d
      | None \<Rightarrow> Some (now e i))"

text \<open>
  The body of the loop at index \<open>i\<close>: \<open>None\<close> is the \<open>continue\<close> of a row whose email
  cell is missing, empty or blank.
\<close>

definition normalizeRow :: "env \<Rightarrow> string list \<Rightarrow> nat \<Rightarrow> string list \<Rightarrow> person option" where
  "normalizeRow e headers i row =
     (case cell row (emailIndex headers) of
        None \<Rightarrow> None
      | Some em \<Rightarrow>
          if em = [] \<or> trim em = [] then None
          else Some \<lparr>
            email = toLowerCase (trim em),
            name = trimmedCell row (nameIndex headers),
            personalEmail = trimmedCell row (personalEmailIndex headers),
            phone = trimmedCell row (phoneIndex headers),
            major = trimmedCell row (majorIndex headers),
            minor = trimmedCell row (minorIndex headers),
            college = trimmedCell row (collegeIndex headers),
            schoolYear = trimmedCell row (schoolYearIndex headers),
            company = trimmedCell row (companyIndex headers),
            position = trimmedCell row (positionIndex headers),
            location = trimmedCell row (locationIndex headers),
            linkedin = trimmedCell row (linkedinIndex headers),
            github = trimmedCell row (githubIndex headers),
            portfolio = trimmedCell row (portfolioIndex headers),
            semester = trimmedCell row (semesterIndex headers),
            duration = trimmedCell row (durationIndex headers),
            companyRating = trimmedCell row (companyRatingIndex headers),
            roleRating = trimmedCell row (roleRatingIndex headers),
            jobSearchMethod = trimmedCell row (jobSearchIndex headers),
            industry = trimmedCell row (industryIndex headers),
            department = trimmedCell row (departmentIndex headers),
            gradYearUpdated = trimmedCell row (gradYearUpdatedIndex headers),
            graduationYear = trimmedCell row (graduationIndex headers),
            currentStatus = determineStatus e headers i row,
            submissionDate = determineSubmissionDate e headers i row,
            rowId = int i + 1 \<rparr>)"

subsection \<open>The batch\<close>

text \<open>The loop \<open>for (let i = 1; i < rows.length; i++)\<close>, over the rows still to come.\<close>

fun rowLoop :: "env \<Rightarrow> string list \<Rightarrow> nat \<Rightarrow> string list list \<Rightarrow> person list" where
  "rowLoop e headers i [] = []"
| "rowLoop e headers i (row # rest) =
     (case normalizeRow e headers i row of
        None \<Rightarrow> rowLoop e headers (Suc i) rest
      | Some p \<Rightarrow> p # rowLoop e headers (Suc i) rest)"

text \<open>
  \<open>getOnboardingData\<close> on the rows the sheet returned: no rows give the empty array, a
  header row without an email column throws.
\<close>

definition getOnboardingData :: "env \<Rightarrow> string list list \<Rightarrow> error + person list" where
  "getOnboardingData e rows =
     (case rows of
        [] \<Rightarrow> Inr []
      | headers # body \<Rightarrow>
          if emailIndex headers = - 1 then Inl EmailColumnNotFound
          else Inr (rowLoop e headers 1 body))"

section \<open>Deduplicator\<close>

text \<open>
  The comparator \<open>(a, b) => b.submissionDate.getTime() - a.submissionDate.getTime()\<close>;
  a difference with NaN is NaN. Time values are integers, and the difference of two of
  them keeps its sign as a double.
\<close>

definition compareFn :: "person \<Rightarrow> person \<Rightarrow> int option" where
  "compareFn a b =
     (case submissionDate b of
        None \<Rightarrow> None
      | Some tb \<Rightarrow> (case submissionDate a of None \<Rightarrow> None | Some ta \<Rightarrow> Some (tb - ta)))"

text \<open>The language's SortCompare reads a NaN from the comparator as +0.\<close>

definition SortCompare :: "person \<Rightarrow> person \<Rightarrow> int" where
  "SortCompare a b = (case compareFn a b of None \<Rightarrow> 0 | Some v \<Rightarrow> v)"

text \<open>
  \<open>Array.prototype.sort\<close> is stable: a stable insertion sort under the comparator. Where
  a date is invalid the comparator is not consistent and the language leaves the order to
  the implementation; the order below is then one of the permitted ones.
\<close>

fun insertSorted :: "person \<Rightarrow> person list \<Rightarrow> person list" where
  "insertSorted x [] = [x]"
| "insertSorted x (y # ys) =
     (if SortCompare x y \<le> 0 then x # y # ys else y # insertSorted x ys)"

definition sortByDate :: "person list \<Rightarrow> person list" where
  "sortByDate xs = foldr insertSorted xs []"

text \<open>The \<open>Map\<close> from email to person, as its entries in insertion order.\<close>

definition has :: "(string \<times> person) list \<Rightarrow> string \<Rightarrow> bool" where
  "has emailMap k = (k \<in> set (map fst emailMap))"

fun dedupLoop :: "(string \<times> person) list \<Rightarrow> person list \<Rightarrow> (string \<times> person) list" where
  "dedupLoop emailMap [] = emailMap"
| "dedupLoop emailMap (p # rest) =
     (if has emailMap (email p) then dedupLoop emailMap rest
      else dedupLoop (emailMap @ [(email p, p)]) rest)"

definition deduplicateOnboardingData :: "person list \<Rightarrow> person list" where
  "deduplicateOnboardingData data = map snd (dedupLoop [] (sortByDate data))"

section \<open>Conservative merger\<close>

text \<open>
  The rows of the dashboard are objects whose keys come from the sheet's header, and the
  merged array holds objects of two shapes. An object is its properties in insertion
  order; a value is \<open>undefined\<close>, a string, a number or a \<open>Date\<close>.
\<close>

datatype jsval = Undefined | Str string | Num int | DateV date

type_synonym obj = "(string \<times> jsval) list"

definition getProp :: "obj \<Rightarrow> string \<Rightarrow> jsval" where
  "getProp ob k = (case map_of ob k of None \<Rightarrow> Undefined | Some v \<Rightarrow> v)"

fun truthy :: "jsval \<Rightarrow> bool" where
  "truthy Undefined = False"
| "truthy (Str s) = (s \<noteq> [])"
| "truthy (Num n) = (n \<noteq> 0)"
| "truthy (DateV d) = True"

text \<open>\<open>a || b\<close>.\<close>

definition orElse :: "jsval \<Rightarrow> jsval \<Rightarrow> jsval" where
  "orElse a b = (if truthy a then a else b)"

text \<open>
  \<open>v?.toLowerCase()\<close>: \<open>undefined\<close> stays \<open>undefined\<close>, a string is lower-cased, and any
  other value has no such method, so the call throws a TypeError.
\<close>

fun optToLowerCase :: "jsval \<Rightarrow> error + jsval" where
  "optToLowerCase Undefined = Inr Undefined"
| "optToLowerCase (Str s) = Inr (Str (toLowerCase s))"
| "optToLowerCase (Num n) = Inl TypeError"
| "optToLowerCase (DateV d) = Inl TypeError"

text \<open>\<open>Array.prototype.map\<close> with a callback that may throw: the first throw ends the run.\<close>

fun mapE :: "('a \<Rightarrow> error + 'b) \<Rightarrow> 'a list \<Rightarrow> error + 'b list" where
  "mapE f [] = Inr []"
| "mapE f (x # xs) =
     (case f x of
        Inl err \<Rightarrow> Inl err
      | Inr y \<Rightarrow> (case mapE f xs of Inl err \<Rightarrow> Inl err | Inr ys \<Rightarrow> Inr (y # ys)))"

text \<open>A person of the onboarding data, seen as the object it is.\<close>

definition objOfPerson :: "person \<Rightarrow> obj" where
  "objOfPerson p =
     [(''email'', Str (email p)),
      (''name'', Str (name p)),
      (''personalEmail'', Str (personalEmail p)),
      (''phone'', Str (phone p)),
      (''major'', Str (major p)),
      (''minor'', Str (minor p)),
      (''college'', Str (college p)),
      (''schoolYear'', Str (schoolYear p)),
      (''company'', Str (company p)),
      (''position'', Str (position p)),
      (''location'', Str (location p)),
      (''linkedin'', Str (linkedin p)),
      (''github'', Str (github p)),
      (''portfolio'', Str (portfolio p)),
      (''semester'', Str (semester p)),
      (''duration'', Str (duration p)),
      (''companyRating'', Str (companyRating p)),
      (''roleRating'', Str (roleRating p)),
      (''jobSearchMethod'', Str (jobSearchMethod p)),
      (''industry'', Str (industry p)),
      (''department'', Str (department p)),
      (''gradYearUpdated'', Str (gradYearUpdated p)),
      (''graduationYear'', Str (graduationYear p)),
      (''currentStatus'', Str (currentStatus p)),
      (''submissionDate'', DateV (submissionDate p)),
      (''rowId'', Num (rowId p))]"

text \<open>
  \<open>new Set(currentData.map(person => person.email?.toLowerCase()).filter(Boolean))\<close>,
  as the list of its elements.
\<close>

definition currentEmailSet :: "obj list \<Rightarrow> error + jsval list" where
  "currentEmailSet currentData =
     (case mapE (\<lambda>person. optToLowerCase (getProp person ''email'')) currentData of
        Inl err \<Rightarrow> Inl err
      | Inr lowered \<Rightarrow> Inr (filter truthy lowered))"

text \<open>
  The object built for an existing person; \<open>t\<close> is the time \<open>new Date()\<close> gives when it
  is built.
\<close>

definition existingPerson :: "int \<Rightarrow> obj \<Rightarrow> error + obj" where
  "existingPerson t currentPerson =
     (case optToLowerCase (getProp currentPerson ''email'') of
        Inl err \<Rightarrow> Inl err
      | Inr lowered \<Rightarrow> Inr
          [(''email'', orElse lowered (Str [])),
           (''name'', orElse (getProp currentPerson ''name'') (Str [])),
           (''company'', orElse (getProp currentPerson ''company'') (Str [])),
           (''position'', orElse (getProp currentPerson ''position'') (Str [])),
           (''location'', orElse (getProp currentPerson ''location'') (Str [])),
           (''linkedin'', orElse (getProp currentPerson ''linkedin'') (Str [])),
           (''github'', orElse (getProp currentPerson ''github'') (Str [])),
           (''graduationYear'', orElse (getProp currentPerson ''graduationYear'') (Str [])),
           (''currentStatus'', orElse (getProp currentPerson ''currentStatus'') (Str ''current'')),
           (''submissionDate'', DateV (Some t)),
           (''rowId'', orElse (getProp currentPerson ''id'') (Num 0))])"

text \<open>
  \<open>mergeNetworkingData(onboardingData, currentData)\<close>; \<open>clock k\<close> is the time at which
  the object for \<open>currentData[k]\<close> is built.
\<close>

definition mergeNetworkingData ::
    "person list \<Rightarrow> obj list \<Rightarrow> (nat \<Rightarrow> int) \<Rightarrow> error + obj list" where
  "mergeNetworkingData onboardingData currentData clock =
     (case currentEmailSet currentData of
        Inl err \<Rightarrow> Inl err
      | Inr emailSet \<Rightarrow>
          (let newPeople = filter (\<lambda>p. Str (email p) \<notin> set emailSet) onboardingData
           in case mapE (\<lambda>(k, currentPerson). existingPerson (clock k) currentPerson)
                     (enumerate 0 currentData) of
                Inl err \<Rightarrow> Inl err
              | Inr existingPeople \<Rightarrow> Inr (existingPeople @ map objOfPerson newPeople)))"

section \<open>Comparing submission dates\<close>

text \<open>
  \<open>a.submissionDate >= b.submissionDate\<close>: the two time values are compared as numbers,
  and any comparison with NaN is false.
\<close>

definition notOlder :: "person \<Rightarrow> person \<Rightarrow> bool" where
  "notOlder a b =
     (case submissionDate a of
        None \<Rightarrow> False
      | Some ta \<Rightarrow> (case submissionDate b of None \<Rightarrow> False | Some tb \<Rightarrow> tb \<le> ta))"

section \<open>A sample run\<close>

text \<open>
  An environment for the examples: the parser's answers on the strings the examples use
  (every other string counts as not a date), a clock, and the year 2026.
\<close>

definition exampleEnv :: env where
  "exampleEnv =
     \<lparr> parseDate = (\<lambda>s. if s = ''2023-01-01'' then Some 1672531200000
                        else if s = ''2024-06-01'' then Some 1717200000000
                        else None),
       now = (\<lambda>i. 1800000000000 + int i),
       currentYear = (\<lambda>i. 2026) \<rparr>"

text \<open>A person with every field empty, from which the examples are written by update.\<close>

definition blankPerson :: person where
  "blankPerson =
     \<lparr> email = [], name = [], personalEmail = [], phone = [], major = [], minor = [],
       college = [], schoolYear = [], company = [], position = [], location = [],
       linkedin = [], github = [], portfolio = [], semester = [], duration = [],
       companyRating = [], roleRating = [], jobSearchMethod = [], industry = [],
       department = [], gradYearUpdated = [], graduationYear = [],
       currentStatus = ''current'', submissionDate = None, rowId = 0 \<rparr>"

text \<open>
  Two persons of the onboarding data, a row of the dashboard as \<open>getCurrentNetworkingData\<close>
  builds it under the header \<open>Email, Name, Notes\<close>, and the object the merger makes of
  that row at time \<open>t\<close> with row number \<open>r\<close>.
\<close>

definition exampleAlice :: person where
  "exampleAlice = blankPerson \<lparr> email := ''alice@x.com'', name := ''Alice'',
                                submissionDate := Some 1717200000000, rowId := 2 \<rparr>"

definition exampleBob :: person where
  "exampleBob = blankPerson \<lparr> email := ''bob@x.com'', name := ''Robert'', company := ''Acme'',
                              submissionDate := Some 1672531200000, rowId := 3 \<rparr>"

definition exampleBobRow :: obj where
  "exampleBobRow =
     [(''email'', Str ''Bob@X.com''), (''name'', Str ''Bob''), (''notes'', Str ''met at the fair''),
      (''id'', Num 2)]"

definition exampleKeptBob :: "int \<Rightarrow> int \<Rightarrow> obj" where
  "exampleKeptBob t r =
     [(''email'', Str ''bob@x.com''), (''name'', Str ''Bob''), (''company'', Str []),
      (''position'', Str []), (''location'', Str []), (''linkedin'', Str []),
      (''github'', Str []), (''graduationYear'', Str []), (''currentStatus'', Str ''current''),
      (''submissionDate'', DateV (Some t)), (''rowId'', Num r)]"

section \<open>Facts about strings\<close>

text \<open>The two character tests by the bits of the character, for evaluation.\<close>

lemma lowerChar_Char:
  "lowerChar (Char b0 b1 b2 b3 b4 b5 b6 b7) =
     (if b6 \<and> \<not> b5 \<and>
         ((\<not> b7 \<and> (b0 \<or> b1 \<or> b2 \<or> b3 \<or> b4) \<and> \<not> (b4 \<and> b3 \<and> (b2 \<or> (b1 \<and> b0)))) \<or>
          (b7 \<and> \<not> (b4 \<and> b2 \<and> b1 \<and> b0)))
      then Char b0 b1 b2 b3 b4 True b6 b7
      else Char b0 b1 b2 b3 b4 b5 b6 b7)"
  by (cases b0; cases b1; cases b2; cases b3; cases b4; cases b5; cases b6; cases b7)
     (simp_all add: lowerChar_def char_of_eq_iff)

lemma isWhiteSpace_Char:
  "isWhiteSpace (Char b0 b1 b2 b3 b4 b5 b6 b7) =
     ((\<not> b7 \<and> \<not> b6 \<and> \<not> b5 \<and> \<not> b4 \<and> b3 \<and> ((\<not> b2 \<and> (b1 \<or> b0)) \<or> (b2 \<and> \<not> b1))) \<or>
      (\<not> b6 \<and> b5 \<and> \<not> b4 \<and> \<not> b3 \<and> \<not> b2 \<and> \<not> b1 \<and> \<not> b0))"
  by (cases b0; cases b1; cases b2; cases b3; cases b4; cases b5; cases b6; cases b7)
     (simp_all add: isWhiteSpace_def)

lemma lowerChar_idem: "lowerChar (lowerChar c) = lowerChar c"
  unfolding lowerChar_def Let_def by auto

lemma toLowerCase_idem: "toLowerCase (toLowerCase s) = toLowerCase s"
  by (simp add: toLowerCase_def lowerChar_idem)

lemma toLowerCase_Nil_iff: "toLowerCase s = [] \<longleftrightarrow> s = []"
  by (simp add: toLowerCase_def)

lemma trim_Nil: "trim [] = []"
  by (simp add: trim_def)

lemma startsWith_iff: "startsWith s t \<longleftrightarrow> (\<exists>v. s = t @ v)"
  by (induction s t rule: startsWith.induct) auto

lemma includesStr_iff: "includesStr s t \<longleftrightarrow> (\<exists>u v. s = u @ t @ v)"
proof (induction s)
  case Nil
  show ?case by (auto simp: startsWith_iff)
next
  case (Cons c s)
  have "(\<exists>u v. c # s = u @ t @ v) \<longleftrightarrow> (\<exists>v. c # s = t @ v) \<or> (\<exists>u v. s = u @ t @ v)"
  proof
    assume "\<exists>u v. c # s = u @ t @ v"
    then obtain u v where uv: "c # s = u @ t @ v" by blast
    show "(\<exists>v. c # s = t @ v) \<or> (\<exists>u v. s = u @ t @ v)"
    proof (cases u)
      case Nil
      with uv show ?thesis by auto
    next
      case (Cons d u')
      with uv have "s = u' @ t @ v" by simp
      then show ?thesis by blast
    qed
  next
    assume "(\<exists>v. c # s = t @ v) \<or> (\<exists>u v. s = u @ t @ v)"
    then show "\<exists>u v. c # s = u @ t @ v"
    proof
      assume "\<exists>v. c # s = t @ v"
      then obtain v where "c # s = [] @ t @ v" by auto
      then show ?thesis by blast
    next
      assume "\<exists>u v. s = u @ t @ v"
      then obtain u v where "c # s = (c # u) @ t @ v" by auto
      then show ?thesis by blast
    qed
  qed
  with Cons show ?case by (simp add: startsWith_iff)
qed

lemma includesStr_rev: "includesStr (rev s) (rev t) = includesStr s t"
proof -
  have "(\<exists>u v. rev s = u @ rev t @ v) \<longleftrightarrow> (\<exists>u v. s = u @ t @ v)"
  proof
    assume "\<exists>u v. rev s = u @ rev t @ v"
    then obtain u v where "rev s = u @ rev t @ v" by blast
    then have "rev (rev s) = rev (u @ rev t @ v)" by simp
    then have "s = rev v @ t @ rev u" by simp
    then show "\<exists>u v. s = u @ t @ v" by blast
  next
    assume "\<exists>u v. s = u @ t @ v"
    then obtain u v where "s = u @ t @ v" by blast
    then have "rev s = rev v @ rev t @ rev u" by simp
    then show "\<exists>u v. rev s = u @ rev t @ v" by blast
  qed
  then show ?thesis by (simp add: includesStr_iff)
qed

lemma includesStr_dropWhile:
  assumes "t \<noteq> []" and "\<not> P (hd t)"
  shows "includesStr (dropWhile P s) t = includesStr s t"
proof (induction s)
  case Nil
  show ?case by simp
next
  case (Cons c s)
  show ?case
  proof (cases "P c")
    case True
    with assms have "\<not> startsWith (c # s) t" by (cases t) auto
    with True Cons show ?thesis by simp
  next
    case False
    then show ?thesis by simp
  qed
qed

lemma includesStr_trim:
  assumes "t \<noteq> []" and "\<not> isWhiteSpace (hd t)" and "\<not> isWhiteSpace (last t)"
  shows "includesStr (trim s) t = includesStr s t"
proof -
  have r: "rev t \<noteq> []" "\<not> isWhiteSpace (hd (rev t))"
    using assms by (simp_all add: hd_rev)
  have "includesStr (trim s) t
        = includesStr (rev (dropWhile isWhiteSpace (rev (dropWhile isWhiteSpace s)))) (rev (rev t))"
    by (simp add: trim_def)
  also have "\<dots> = includesStr (dropWhile isWhiteSpace (rev (dropWhile isWhiteSpace s))) (rev t)"
    by (rule includesStr_rev)
  also have "\<dots> = includesStr (rev (dropWhile isWhiteSpace s)) (rev t)"
    using r by (simp add: includesStr_dropWhile)
  also have "\<dots> = includesStr (dropWhile isWhiteSpace s) t"
    by (rule includesStr_rev)
  also have "\<dots> = includesStr s t"
    using assms(1,2) by (simp add: includesStr_dropWhile)
  finally show ?thesis .
qed

lemma isWhiteSpace_lowerChar: "isWhiteSpace (lowerChar c) = isWhiteSpace c"
  unfolding isWhiteSpace_def lowerChar_def Let_def
  by (auto simp: of_char_of)

lemma toLowerCase_trim: "toLowerCase (trim s) = trim (toLowerCase s)"
proof -
  have comp: "isWhiteSpace \<circ> lowerChar = isWhiteSpace"
    by (rule ext) (simp add: isWhiteSpace_lowerChar)
  show ?thesis
    by (simp add: toLowerCase_def trim_def rev_map dropWhile_map comp)
qed

lemma includes_alumni_trim:
  "includesStr (toLowerCase (trim s)) ''alumni'' = includesStr (toLowerCase s) ''alumni''"
  unfolding toLowerCase_trim
  by (rule includesStr_trim) (simp_all add: isWhiteSpace_def)

section \<open>Facts about the normalizer\<close>

lemma normalizeRow_Some_iff:
  "(\<exists>p. normalizeRow e headers i row = Some p) \<longleftrightarrow>
   (\<exists>s. cell row (emailIndex headers) = Some s \<and> trim s \<noteq> [])"
  by (auto simp: normalizeRow_def trim_Nil split: option.splits)

lemma normalizeRow_rowId: "normalizeRow e headers i row = Some p \<Longrightarrow> rowId p = int i + 1"
  by (auto simp: normalizeRow_def split: option.splits if_splits)

lemma normalizeRow_email:
  "normalizeRow e headers i row = Some p \<Longrightarrow>
   \<exists>s. cell row (emailIndex headers) = Some s \<and> email p = toLowerCase (trim s)"
  by (auto simp: normalizeRow_def split: option.splits if_splits)

lemma rowLoop_mem:
  "p \<in> set (rowLoop e headers i body) \<longleftrightarrow>
   (\<exists>j<length body. normalizeRow e headers (i + j) (body ! j) = Some p)"
proof (induction body arbitrary: i)
  case Nil
  show ?case by simp
next
  case (Cons row rest)
  have split: "(\<exists>j<length (row # rest). normalizeRow e headers (i + j) ((row # rest) ! j) = Some p)
     \<longleftrightarrow> normalizeRow e headers i row = Some p \<or>
         (\<exists>j<length rest. normalizeRow e headers (Suc i + j) (rest ! j) = Some p)"
    by (auto simp: less_Suc_eq_0_disj)
  show ?case
    unfolding split using Cons.IH [of "Suc i"]
    by (auto split: option.splits)
qed

lemma getOnboardingData_Inr:
  assumes "getOnboardingData e (headers # body) = Inr data"
  shows "data = rowLoop e headers 1 body"
  using assms by (simp add: getOnboardingData_def split: if_splits)

lemma getOnboardingData_row:
  assumes "getOnboardingData e (headers # body) = Inr data" and "j < length body"
  shows "(p \<in> set data \<and> rowId p = int j + 2) \<longleftrightarrow>
         normalizeRow e headers (Suc j) (body ! j) = Some p"
proof -
  have d: "data = rowLoop e headers 1 body"
    using assms(1) by (rule getOnboardingData_Inr)
  show ?thesis
  proof
    assume a: "p \<in> set data \<and> rowId p = int j + 2"
    then obtain k where k: "k < length body" "normalizeRow e headers (1 + k) (body ! k) = Some p"
      unfolding d rowLoop_mem by blast
    from k(2) have "rowId p = int (1 + k) + 1" by (rule normalizeRow_rowId)
    with a have "k = j" by simp
    with k(2) show "normalizeRow e headers (Suc j) (body ! j) = Some p" by simp
  next
    assume n: "normalizeRow e headers (Suc j) (body ! j) = Some p"
    then have "rowId p = int (Suc j) + 1" by (rule normalizeRow_rowId)
    moreover have "p \<in> set data"
      unfolding d rowLoop_mem using n assms(2) by auto
    ultimately show "p \<in> set data \<and> rowId p = int j + 2" by simp
  qed
qed

text \<open>Unfolding rules with which a run on concrete rows is evaluated.\<close>

lemmas string_eval = toLowerCase_def lowerChar_Char isWhiteSpace_Char trim_def Let_def

lemmas column_eval =
  emailIndex_def nameIndex_def companyIndex_def positionIndex_def locationIndex_def
  linkedinIndex_def githubIndex_def graduationIndex_def statusIndex_def dateIndex_def
  personalEmailIndex_def phoneIndex_def majorIndex_def minorIndex_def collegeIndex_def
  schoolYearIndex_def portfolioIndex_def semesterIndex_def durationIndex_def
  companyRatingIndex_def roleRatingIndex_def jobSearchIndex_def industryIndex_def
  departmentIndex_def gradYearUpdatedIndex_def

lemmas parseInt_eval = parseInt_def digitValue_def isDigitIn_def digitsValue_def

lemmas normalizer_eval =
  getOnboardingData_def normalizeRow_def determineStatus_def determineSubmissionDate_def
  presentCell_def trimmedCell_def cell_def exampleEnv_def blankPerson_def

section \<open>Missing-email exclusion and normalization\<close>

text \<open>
  Claim C9. In a batch that is read (\<open>getOnboardingData\<close> returns \<open>data\<close>), the data row
  \<open>body ! j\<close>, which is sheet row \<open>j + 2\<close>, produces a person if and only if its email
  cell is there and is not empty after trimming; and the person produced for that row has as
  email the trimmed, lower-cased cell.
\<close>

theorem normalizer_email_exclusion:
  assumes "getOnboardingData e (headers # body) = Inr data" and "j < length body"
  shows "((\<exists>p\<in>set data. rowId p = int j + 2) \<longleftrightarrow>
            (\<exists>s. cell (body ! j) (emailIndex headers) = Some s \<and> trim s \<noteq> [])) \<and>
         (\<forall>p\<in>set data. rowId p = int j + 2 \<longrightarrow>
            (\<exists>s. cell (body ! j) (emailIndex headers) = Some s \<and> email p = toLowerCase (trim s)))"
proof -
  note row = getOnboardingData_row [OF assms]
  have "(\<exists>p\<in>set data. rowId p = int j + 2) \<longleftrightarrow>
        (\<exists>p. normalizeRow e headers (Suc j) (body ! j) = Some p)"
    using row by blast
  then have one: "(\<exists>p\<in>set data. rowId p = int j + 2) \<longleftrightarrow>
      (\<exists>s. cell (body ! j) (emailIndex headers) = Some s \<and> trim s \<noteq> [])"
    by (simp only: normalizeRow_Some_iff)
  have two: "\<exists>s. cell (body ! j) (emailIndex headers) = Some s \<and> email p = toLowerCase (trim s)"
    if "p \<in> set data" "rowId p = int j + 2" for p
    using that row [of p] normalizeRow_email by blast
  from one two show ?thesis by blast
qed

theorem normalizer_email_exclusion_witness:
  "getOnboardingData exampleEnv
     [[''Timestamp'', ''Email'', ''Name''],
      [''2023-01-01'', '' A@x.com '', ''Alice''],
      [''2024-06-01'', ''   '', ''Nobody'']]
   = Inr [blankPerson \<lparr> email := ''a@x.com'', name := ''Alice'',
                        submissionDate := Some 1672531200000, rowId := 2 \<rparr>] \<and>
   cell [''2023-01-01'', '' A@x.com '', ''Alice''] (emailIndex [''Timestamp'', ''Email'', ''Name''])
     = Some '' A@x.com '' \<and>
   trim '' A@x.com '' \<noteq> [] \<and>
   toLowerCase (trim '' A@x.com '') = ''a@x.com''"
proof -
  let ?H = "[''Timestamp'', ''Email'', ''Name'']"
  let ?B = "[[''2023-01-01'', '' A@x.com '', ''Alice''], [''2024-06-01'', ''   '', ''Nobody'']]"
  let ?p = "blankPerson \<lparr> email := ''a@x.com'', name := ''Alice'',
                        submissionDate := Some 1672531200000, rowId := 2 \<rparr>"
  have h1: "getOnboardingData exampleEnv (?H # ?B) = Inr [?p]"
    by (simp add: normalizer_eval column_eval string_eval)
  have h2: "(0::nat) < length ?B" by simp
  have c: "cell (?B ! 0) (emailIndex ?H) = Some '' A@x.com ''"
    by (simp add: cell_def emailIndex_def string_eval)
  from normalizer_email_exclusion [OF h1 h2]
  have "\<exists>s. cell (?B ! 0) (emailIndex ?H) = Some s \<and> email ?p = toLowerCase (trim s)"
    by simp
  with c have e: "email ?p = toLowerCase (trim '' A@x.com '')" by simp
  have t: "trim '' A@x.com '' \<noteq> []" by (simp add: string_eval)
  from h1 c t e show ?thesis by (simp add: blankPerson_def)
qed

section \<open>Status derivation\<close>

text \<open>
  Claim C6, as the code has it. When the status column resolved and the status cell of the
  row is there and not empty, the status of the produced person is \<open>'alumni'\<close> if the
  trimmed, lower-cased cell contains \<open>alumni\<close> and \<open>'current'\<close> otherwise, whatever the
  graduation year says. An empty or missing status cell leaves the decision to the
  graduation year: the counterexample below has a resolved status column, an empty status
  cell and the year 2020, and the person is \<open>'alumni'\<close>.
\<close>

theorem status_rule_one:
  assumes "getOnboardingData e (headers # body) = Inr data"
    and "j < length body"
    and "p \<in> set data"
    and "rowId p = int j + 2"
    and "statusIndex headers \<noteq> - 1"
    and "cell (body ! j) (statusIndex headers) = Some s"
    and "s \<noteq> []"
  shows "currentStatus p =
           (if includesStr (toLowerCase (trim s)) ''alumni'' then ''alumni'' else ''current'')"
proof -
  have n: "normalizeRow e headers (Suc j) (body ! j) = Some p"
    using getOnboardingData_row [OF assms(1,2), of p] assms(3,4) by simp
  have "presentCell (body ! j) (statusIndex headers) = Some s"
    using assms(5,6,7) by (simp add: presentCell_def)
  then have "determineStatus e headers (Suc j) (body ! j) =
      (if includesStr (toLowerCase s) ''alumni'' then ''alumni'' else ''current'')"
    by (simp add: determineStatus_def)
  moreover have "currentStatus p = determineStatus e headers (Suc j) (body ! j)"
    using n by (auto simp: normalizeRow_def split: option.splits if_splits)
  ultimately show ?thesis
    by (simp only: includes_alumni_trim)
qed

theorem status_rule_one_witness:
  "getOnboardingData exampleEnv
     [[''Email'', ''Status'', ''Graduation Year''], [''a@x.com'', '' Alumni '', ''2030'']]
   = Inr [blankPerson \<lparr> email := ''a@x.com'', graduationYear := ''2030'',
                        currentStatus := ''alumni'',
                        submissionDate := Some 1800000000001, rowId := 2 \<rparr>] \<and>
   statusIndex [''Email'', ''Status'', ''Graduation Year''] = 1 \<and>
   includesStr (toLowerCase (trim '' Alumni '')) ''alumni'' \<and>
   parseInt ''2030'' = Some 2030 \<and>
   currentStatus (blankPerson \<lparr> email := ''a@x.com'', graduationYear := ''2030'',
                        currentStatus := ''alumni'',
                        submissionDate := Some 1800000000001, rowId := 2 \<rparr>) = ''alumni''"
proof -
  let ?H = "[''Email'', ''Status'', ''Graduation Year'']"
  let ?B = "[[''a@x.com'', '' Alumni '', ''2030'']]"
  let ?p = "blankPerson \<lparr> email := ''a@x.com'', graduationYear := ''2030'',
                        currentStatus := ''alumni'',
                        submissionDate := Some 1800000000001, rowId := 2 \<rparr>"
  have h1: "getOnboardingData exampleEnv (?H # ?B) = Inr [?p]"
    by (simp add: normalizer_eval column_eval string_eval)
  have h2: "(0::nat) < length ?B" by simp
  have h3: "?p \<in> set [?p]" by simp
  have h4: "rowId ?p = int 0 + 2" by simp
  have si: "statusIndex ?H = 1" by (simp add: statusIndex_def string_eval)
  have h5: "statusIndex ?H \<noteq> - 1" by (simp add: si)
  have h6: "cell (?B ! 0) (statusIndex ?H) = Some '' Alumni ''" by (simp add: si cell_def)
  have h7: "'' Alumni '' \<noteq> []" by simp
  have inc: "includesStr (toLowerCase (trim '' Alumni '')) ''alumni''"
    by (simp add: string_eval)
  have g: "parseInt ''2030'' = Some 2030" by (simp add: parseInt_eval string_eval)
  from status_rule_one [OF h1 h2 h3 h4 h5 h6 h7] inc
  have "currentStatus ?p = ''alumni''" by simp
  with h1 si inc g show ?thesis by simp
qed

theorem status_rule_one_counterexample:
  "statusIndex [''Email'', ''Status'', ''Graduation Year''] = 1 \<and>
   cell [''a@x.com'', [], ''2020''] 1 = Some [] \<and>
   \<not> includesStr (toLowerCase (trim [])) ''alumni'' \<and>
   getOnboardingData exampleEnv
     [[''Email'', ''Status'', ''Graduation Year''], [''a@x.com'', [], ''2020'']]
   = Inr [blankPerson \<lparr> email := ''a@x.com'', graduationYear := ''2020'',
                        currentStatus := ''alumni'',
                        submissionDate := Some 1800000000001, rowId := 2 \<rparr>]"
  by (simp add: normalizer_eval column_eval string_eval parseInt_eval)

section \<open>Submission date\<close>

text \<open>
  Claim C7, as the code has it. When the date column resolved and the date cell of the row
  is there and not empty, the submission date is what the parser makes of the cell, a valid
  date or an Invalid Date; when the column did not resolve or the cell is missing or empty,
  it is the clock's time in that iteration. The counterexample below has a cell that does
  not parse: the person carries an Invalid Date, not the clock's time.
\<close>

theorem submission_date_derivation:
  assumes "getOnboardingData e (headers # body) = Inr data"
    and "j < length body"
    and "p \<in> set data"
    and "rowId p = int j + 2"
  shows "(\<forall>d. dateIndex headers \<noteq> - 1 \<and> cell (body ! j) (dateIndex headers) = Some d \<and> d \<noteq> []
            \<longrightarrow> submissionDate p = parseDate e d) \<and>
         (dateIndex headers = - 1 \<or> cell (body ! j) (dateIndex headers) = None \<or>
          cell (body ! j) (dateIndex headers) = Some []
            \<longrightarrow> submissionDate p = Some (now e (Suc j)))"
proof -
  have n: "normalizeRow e headers (Suc j) (body ! j) = Some p"
    using getOnboardingData_row [OF assms(1,2), of p] assms(3,4) by simp
  have sd: "submissionDate p = determineSubmissionDate e headers (Suc j) (body ! j)"
    using n by (auto simp: normalizeRow_def split: option.splits if_splits)
  show ?thesis
    unfolding sd determineSubmissionDate_def presentCell_def
    by (auto split: option.splits)
qed

theorem submission_date_derivation_witness:
  "getOnboardingData exampleEnv
     [[''Timestamp'', ''Email''], [''2024-06-01'', ''a@x.com''], [[], ''b@x.com'']]
   = Inr [blankPerson \<lparr> email := ''a@x.com'', submissionDate := Some 1717200000000, rowId := 2 \<rparr>,
          blankPerson \<lparr> email := ''b@x.com'', submissionDate := Some 1800000000002, rowId := 3 \<rparr>] \<and>
   dateIndex [''Timestamp'', ''Email''] = 0 \<and>
   parseDate exampleEnv ''2024-06-01'' = Some 1717200000000 \<and>
   now exampleEnv (Suc 1) = 1800000000002 \<and>
   submissionDate (blankPerson \<lparr> email := ''a@x.com'', submissionDate := Some 1717200000000,
                                  rowId := 2 \<rparr>) = parseDate exampleEnv ''2024-06-01'' \<and>
   submissionDate (blankPerson \<lparr> email := ''b@x.com'', submissionDate := Some 1800000000002,
                                  rowId := 3 \<rparr>) = Some (now exampleEnv (Suc 1))"
proof -
  let ?H = "[''Timestamp'', ''Email'']"
  let ?B = "[[''2024-06-01'', ''a@x.com''], [[], ''b@x.com'']]"
  let ?p = "blankPerson \<lparr> email := ''a@x.com'', submissionDate := Some 1717200000000, rowId := 2 \<rparr>"
  let ?q = "blankPerson \<lparr> email := ''b@x.com'', submissionDate := Some 1800000000002, rowId := 3 \<rparr>"
  have h1: "getOnboardingData exampleEnv (?H # ?B) = Inr [?p, ?q]"
    by (simp add: normalizer_eval column_eval string_eval)
  have di: "dateIndex ?H = 0" by (simp add: dateIndex_def string_eval)
  have a2: "(0::nat) < length ?B" and a3: "?p \<in> set [?p, ?q]" and a4: "rowId ?p = int 0 + 2"
    by simp_all
  have b2: "(1::nat) < length ?B" and b3: "?q \<in> set [?p, ?q]" and b4: "rowId ?q = int 1 + 2"
    by simp_all
  have ca: "cell (?B ! 0) (dateIndex ?H) = Some ''2024-06-01''" by (simp add: di cell_def)
  have cb: "cell (?B ! 1) (dateIndex ?H) = Some []" by (simp add: di cell_def)
  from submission_date_derivation [OF h1 a2 a3 a4] di ca
  have ra: "submissionDate ?p = parseDate exampleEnv ''2024-06-01''" by simp
  from submission_date_derivation [OF h1 b2 b3 b4] cb
  have rb: "submissionDate ?q = Some (now exampleEnv (Suc 1))" by simp
  have pd: "parseDate exampleEnv ''2024-06-01'' = Some 1717200000000"
    and nw: "now exampleEnv (Suc 1) = 1800000000002"
    by (simp_all add: exampleEnv_def)
  from h1 di pd nw ra rb show ?thesis by simp
qed

theorem submission_date_counterexample:
  "dateIndex [''Timestamp'', ''Email''] = 0 \<and>
   cell [''not a date'', ''a@x.com''] 0 = Some ''not a date'' \<and>
   parseDate exampleEnv ''not a date'' = None \<and>
   getOnboardingData exampleEnv [[''Timestamp'', ''Email''], [''not a date'', ''a@x.com'']]
   = Inr [blankPerson \<lparr> email := ''a@x.com'', submissionDate := None, rowId := 2 \<rparr>] \<and>
   submissionDate (blankPerson \<lparr> email := ''a@x.com'', submissionDate := None, rowId := 2 \<rparr>)
     \<noteq> Some (now exampleEnv 1)"
  by (simp add: normalizer_eval column_eval string_eval)

section \<open>Rating columns\<close>

text \<open>
  Claim C8, as the code has it. The rating columns are looked for under the names
  \<open>Company_Rating\<close> and \<open>Role_Rating\<close>: headers spelled so resolve to the positions 0
  and 1, while the headers \<open>Company Rating\<close> and \<open>Role Rating\<close> resolve neither (and, as
  the counterexample adds, are taken for the company and the position columns).
\<close>

theorem rating_columns_resolution:
  "companyRatingIndex [''Company_Rating'', ''Role_Rating''] = 0 \<and>
   roleRatingIndex [''Company_Rating'', ''Role_Rating''] = 1 \<and>
   companyRatingIndex [''Company Rating'', ''Role Rating''] = - 1 \<and>
   roleRatingIndex [''Company Rating'', ''Role Rating''] = - 1"
  by (simp add: companyRatingIndex_def roleRatingIndex_def string_eval)

theorem rating_columns_resolution_witness:
  "cell [''5'', ''4''] (companyRatingIndex [''Company_Rating'', ''Role_Rating'']) = Some ''5'' \<and>
   cell [''5'', ''4''] (roleRatingIndex [''Company_Rating'', ''Role_Rating'']) = Some ''4''"
  using rating_columns_resolution by (simp add: cell_def)

theorem rating_columns_counterexample:
  "companyRatingIndex [''Company Rating'', ''Role Rating''] \<noteq> 0 \<and>
   roleRatingIndex [''Company Rating'', ''Role Rating''] \<noteq> 1 \<and>
   companyIndex [''Company Rating'', ''Role Rating''] = 0 \<and>
   positionIndex [''Company Rating'', ''Role Rating''] = 1"
  by (simp add: companyRatingIndex_def roleRatingIndex_def companyIndex_def positionIndex_def
      string_eval)

section \<open>Facts about the deduplicator\<close>

lemma set_insertSorted: "set (insertSorted x ys) = insert x (set ys)"
  by (induction ys) auto

lemma set_sortByDate: "set (sortByDate xs) = set xs"
  by (induction xs) (simp_all add: sortByDate_def set_insertSorted)

lemma length_insertSorted: "length (insertSorted x ys) = Suc (length ys)"
  by (induction ys) auto

lemma length_sortByDate: "length (sortByDate xs) = length xs"
  by (induction xs) (simp_all add: sortByDate_def length_insertSorted)

lemma SortCompare_valid:
  "submissionDate a = Some ta \<Longrightarrow> submissionDate b = Some tb \<Longrightarrow> SortCompare a b = tb - ta"
  by (simp add: SortCompare_def compareFn_def)

lemma notOlder_valid:
  "submissionDate a = Some ta \<Longrightarrow> submissionDate b = Some tb \<Longrightarrow> notOlder a b = (tb \<le> ta)"
  by (simp add: notOlder_def)


lemma sorted_insertSorted:
  assumes "submissionDate x \<noteq> None" and "\<forall>y\<in>set ys. submissionDate y \<noteq> None"
    and "sorted_wrt notOlder ys"
  shows "sorted_wrt notOlder (insertSorted x ys)"
  using assms(2,3)
proof (induction ys)
  case Nil
  show ?case by simp
next
  case (Cons y ys)
  obtain tx ty where t: "submissionDate x = Some tx" "submissionDate y = Some ty"
    using assms(1) Cons.prems(1) by auto
  show ?case
  proof (cases "SortCompare x y \<le> 0")
    case True
    then have xy: "ty \<le> tx" using t by (simp add: SortCompare_valid)
    have "notOlder x z" if "z \<in> set (y # ys)" for z
    proof -
      have "submissionDate z \<noteq> None" using that Cons.prems(1) by blast
      then obtain tz where tz: "submissionDate z = Some tz" by auto
      have "z = y \<or> notOlder y z" using that Cons.prems(2) by auto
      then have "tz \<le> ty" using t tz by (auto simp: notOlder_valid)
      with xy show ?thesis using t tz by (simp add: notOlder_valid)
    qed
    with True Cons.prems(2) show ?thesis by simp
  next
    case False
    then have "notOlder y x" using t by (simp add: SortCompare_valid notOlder_valid)
    moreover have "sorted_wrt notOlder (insertSorted x ys)"
      using Cons by simp
    ultimately show ?thesis
      using False Cons.prems(2) by (auto simp: set_insertSorted)
  qed
qed

lemma sorted_sortByDate:
  assumes "\<forall>p\<in>set xs. submissionDate p \<noteq> None"
  shows "sorted_wrt notOlder (sortByDate xs)"
  using assms
proof (induction xs)
  case Nil
  show ?case by (simp add: sortByDate_def)
next
  case (Cons x xs)
  have "sorted_wrt notOlder (insertSorted x (sortByDate xs))"
    using Cons by (intro sorted_insertSorted) (simp_all add: set_sortByDate)
  then show ?case by (simp add: sortByDate_def)
qed

text \<open>The loop: what the map holds at the end.\<close>

lemma has_iff: "has m k \<longleftrightarrow> k \<in> fst ` set m"
  by (simp add: has_def)


lemma dedupLoop_distinct:
  "distinct (map fst m) \<Longrightarrow> distinct (map fst (dedupLoop m xs))"
  by (induction xs arbitrary: m) (auto simp: has_iff)

lemma dedupLoop_key_email:
  "\<forall>kp\<in>set m. fst kp = email (snd kp) \<Longrightarrow>
   \<forall>kp\<in>set (dedupLoop m xs). fst kp = email (snd kp)"
proof (induction xs arbitrary: m)
  case Nil
  then show ?case by simp
next
  case (Cons x xs)
  show ?case
  proof (cases "has m (email x)")
    case True
    with Cons show ?thesis by simp
  next
    case False
    have "\<forall>kp\<in>set (m @ [(email x, x)]). fst kp = email (snd kp)"
      using Cons.prems by simp
    from Cons.IH [OF this] False show ?thesis by simp
  qed
qed

lemma dedupLoop_values:
  "q \<in> snd ` set (dedupLoop m xs) \<Longrightarrow>
   q \<in> snd ` set m \<or>
   (\<exists>ys zs. xs = ys @ q # zs \<and> email q \<notin> email ` set ys \<and> email q \<notin> fst ` set m)"
proof (induction xs arbitrary: m)
  case Nil
  then show ?case by simp
next
  case (Cons x xs)
  show ?case
  proof (cases "has m (email x)")
    case True
    with Cons.prems have "q \<in> snd ` set (dedupLoop m xs)" by simp
    from Cons.IH [OF this] show ?thesis
    proof
      assume "q \<in> snd ` set m"
      then show ?thesis by simp
    next
      assume "\<exists>ys zs. xs = ys @ q # zs \<and> email q \<notin> email ` set ys \<and> email q \<notin> fst ` set m"
      then obtain ys zs where yz: "xs = ys @ q # zs" "email q \<notin> email ` set ys"
        "email q \<notin> fst ` set m" by blast
      from True have "email x \<in> fst ` set m" by (simp add: has_iff)
      with yz(3) have "email q \<noteq> email x" by metis
      with yz have "x # xs = (x # ys) @ q # zs \<and> email q \<notin> email ` set (x # ys) \<and>
          email q \<notin> fst ` set m" by simp
      then show ?thesis by blast
    qed
  next
    case False
    with Cons.prems have "q \<in> snd ` set (dedupLoop (m @ [(email x, x)]) xs)" by simp
    from Cons.IH [OF this] show ?thesis
    proof
      assume "q \<in> snd ` set (m @ [(email x, x)])"
      then have "q \<in> snd ` set m \<or> q = x" by auto
      then show ?thesis
      proof
        assume "q \<in> snd ` set m"
        then show ?thesis by simp
      next
        assume "q = x"
        with False have "x # xs = [] @ q # xs \<and> email q \<notin> email ` set [] \<and>
            email q \<notin> fst ` set m" by (simp add: has_iff)
        then show ?thesis by blast
      qed
    next
      assume "\<exists>ys zs. xs = ys @ q # zs \<and> email q \<notin> email ` set ys \<and>
          email q \<notin> fst ` set (m @ [(email x, x)])"
      then obtain ys zs where yz: "xs = ys @ q # zs" "email q \<notin> email ` set ys"
        "email q \<notin> fst ` set (m @ [(email x, x)])" by blast
      then have "x # xs = (x # ys) @ q # zs \<and> email q \<notin> email ` set (x # ys) \<and>
          email q \<notin> fst ` set m" by auto
      then show ?thesis by blast
    qed
  qed
qed

lemma dedupLoop_sorted:
  "sorted_wrt R (map snd m @ xs) \<Longrightarrow> sorted_wrt R (map snd (dedupLoop m xs))"
proof (induction xs arbitrary: m)
  case Nil
  then show ?case by simp
next
  case (Cons x xs)
  show ?case
  proof (cases "has m (email x)")
    case True
    from Cons.prems have "sorted_wrt R (map snd m @ xs)"
      by (simp add: sorted_wrt_append)
    with True Cons.IH show ?thesis by simp
  next
    case False
    from Cons.prems have "sorted_wrt R (map snd (m @ [(email x, x)]) @ xs)" by simp
    with False Cons.IH show ?thesis by simp
  qed
qed

lemma deduplicate_subset: "set (deduplicateOnboardingData data) \<subseteq> set data"
proof
  fix q assume "q \<in> set (deduplicateOnboardingData data)"
  then have "q \<in> snd ` set (dedupLoop [] (sortByDate data))"
    by (simp add: deduplicateOnboardingData_def)
  from dedupLoop_values [OF this] have "q \<in> set (sortByDate data)" by auto
  then show "q \<in> set data" by (simp add: set_sortByDate)
qed

lemma deduplicate_map_email:
  "map email (deduplicateOnboardingData data) = map fst (dedupLoop [] (sortByDate data))"
proof -
  have "\<forall>kp\<in>set (dedupLoop [] (sortByDate data)). fst kp = email (snd kp)"
    by (rule dedupLoop_key_email) simp
  then show ?thesis
    by (simp add: deduplicateOnboardingData_def)
qed


lemmas dedup_eval =
  deduplicateOnboardingData_def sortByDate_def SortCompare_def compareFn_def has_def
  notOlder_def blankPerson_def

section \<open>Identity uniqueness\<close>

text \<open>
  Claim C2. For every input, no two persons in the output of the deduplicator have the same
  email.
\<close>

theorem deduplicate_identity_unique:
  "distinct (map email (deduplicateOnboardingData data))"
  unfolding deduplicate_map_email by (rule dedupLoop_distinct) simp

theorem deduplicate_identity_unique_witness:
  "map email (deduplicateOnboardingData
     [blankPerson \<lparr> email := ''a@x.com'', submissionDate := Some 1672531200000, rowId := 2 \<rparr>,
      blankPerson \<lparr> email := ''b@x.com'', submissionDate := Some 1700000000000, rowId := 3 \<rparr>,
      blankPerson \<lparr> email := ''a@x.com'', submissionDate := Some 1717200000000, rowId := 4 \<rparr>])
   = [''a@x.com'', ''b@x.com''] \<and>
   distinct [''a@x.com'', ''b@x.com'']"
proof -
  let ?data = "[blankPerson \<lparr> email := ''a@x.com'', submissionDate := Some 1672531200000, rowId := 2 \<rparr>,
      blankPerson \<lparr> email := ''b@x.com'', submissionDate := Some 1700000000000, rowId := 3 \<rparr>,
      blankPerson \<lparr> email := ''a@x.com'', submissionDate := Some 1717200000000, rowId := 4 \<rparr>]"
  have v: "map email (deduplicateOnboardingData ?data) = [''a@x.com'', ''b@x.com'']"
    by (simp add: dedup_eval)
  from deduplicate_identity_unique [of ?data] v
  have "distinct [''a@x.com'', ''b@x.com'']" by (simp only:)
  with v show ?thesis by (simp only: simp_thms)
qed

section \<open>Order of the output\<close>

text \<open>
  Claim C10, as the code has it. When every input person has a valid submission date, the
  output of the deduplicator is ordered by submission date, most recent first. The
  counterexample below is a sheet with a timestamp that does not parse: the two persons of
  the output are in that order in neither arrangement.
\<close>

theorem deduplicate_most_recent_first:
  assumes "\<forall>p\<in>set data. submissionDate p \<noteq> None"
  shows "sorted_wrt notOlder (deduplicateOnboardingData data)"
  unfolding deduplicateOnboardingData_def
  by (rule dedupLoop_sorted) (simp add: sorted_sortByDate [OF assms])

theorem deduplicate_most_recent_first_witness:
  "deduplicateOnboardingData
     [blankPerson \<lparr> email := ''a@x.com'', submissionDate := Some 1672531200000, rowId := 2 \<rparr>,
      blankPerson \<lparr> email := ''b@x.com'', submissionDate := Some 1700000000000, rowId := 3 \<rparr>,
      blankPerson \<lparr> email := ''a@x.com'', submissionDate := Some 1717200000000, rowId := 4 \<rparr>]
   = [blankPerson \<lparr> email := ''a@x.com'', submissionDate := Some 1717200000000, rowId := 4 \<rparr>,
      blankPerson \<lparr> email := ''b@x.com'', submissionDate := Some 1700000000000, rowId := 3 \<rparr>] \<and>
   notOlder (blankPerson \<lparr> email := ''a@x.com'', submissionDate := Some 1717200000000, rowId := 4 \<rparr>)
            (blankPerson \<lparr> email := ''b@x.com'', submissionDate := Some 1700000000000, rowId := 3 \<rparr>)"
proof -
  let ?a1 = "blankPerson \<lparr> email := ''a@x.com'', submissionDate := Some 1672531200000, rowId := 2 \<rparr>"
  let ?b = "blankPerson \<lparr> email := ''b@x.com'', submissionDate := Some 1700000000000, rowId := 3 \<rparr>"
  let ?a2 = "blankPerson \<lparr> email := ''a@x.com'', submissionDate := Some 1717200000000, rowId := 4 \<rparr>"
  have h: "\<forall>p\<in>set [?a1, ?b, ?a2]. submissionDate p \<noteq> None" by simp
  have v: "deduplicateOnboardingData [?a1, ?b, ?a2] = [?a2, ?b]"
    by (simp add: dedup_eval)
  from deduplicate_most_recent_first [OF h] have "sorted_wrt notOlder [?a2, ?b]"
    by (simp only: v)
  then have "notOlder ?a2 ?b" by simp
  with v show ?thesis by (simp only: simp_thms)
qed

theorem deduplicate_most_recent_first_counterexample:
  "getOnboardingData exampleEnv
     [[''Timestamp'', ''Email''], [''not a date'', ''a@x.com''], [''2024-06-01'', ''b@x.com'']]
   = Inr [blankPerson \<lparr> email := ''a@x.com'', submissionDate := None, rowId := 2 \<rparr>,
          blankPerson \<lparr> email := ''b@x.com'', submissionDate := Some 1717200000000, rowId := 3 \<rparr>] \<and>
   deduplicateOnboardingData
     [blankPerson \<lparr> email := ''a@x.com'', submissionDate := None, rowId := 2 \<rparr>,
      blankPerson \<lparr> email := ''b@x.com'', submissionDate := Some 1717200000000, rowId := 3 \<rparr>]
   = [blankPerson \<lparr> email := ''a@x.com'', submissionDate := None, rowId := 2 \<rparr>,
      blankPerson \<lparr> email := ''b@x.com'', submissionDate := Some 1717200000000, rowId := 3 \<rparr>] \<and>
   \<not> sorted_wrt notOlder
     [blankPerson \<lparr> email := ''a@x.com'', submissionDate := None, rowId := 2 \<rparr>,
      blankPerson \<lparr> email := ''b@x.com'', submissionDate := Some 1717200000000, rowId := 3 \<rparr>] \<and>
   \<not> sorted_wrt notOlder
     [blankPerson \<lparr> email := ''b@x.com'', submissionDate := Some 1717200000000, rowId := 3 \<rparr>,
      blankPerson \<lparr> email := ''a@x.com'', submissionDate := None, rowId := 2 \<rparr>]"
  by (simp add: normalizer_eval column_eval string_eval dedup_eval)

section \<open>Most recent wins\<close>




text \<open>
  The scenario of two submissions by one person: one person remains, with the later date
  and, the graduation year 2022 lying before the current year, the status \<open>'alumni'\<close>.
\<close>

lemma scenario_two_submissions:
  "getOnboardingData exampleEnv
     [[''Timestamp'', ''Email'', ''Name'', ''Graduation Year''],
      [''2023-01-01'', ''a@x.com'', ''Alice'', ''2022''],
      [''2024-06-01'', ''a@x.com'', ''Alice A.'', ''2022'']]
   = Inr [blankPerson \<lparr> email := ''a@x.com'', name := ''Alice'', graduationYear := ''2022'',
                        currentStatus := ''alumni'', submissionDate := Some 1672531200000,
                        rowId := 2 \<rparr>,
          blankPerson \<lparr> email := ''a@x.com'', name := ''Alice A.'', graduationYear := ''2022'',
                        currentStatus := ''alumni'', submissionDate := Some 1717200000000,
                        rowId := 3 \<rparr>] \<and>
   deduplicateOnboardingData
     [blankPerson \<lparr> email := ''a@x.com'', name := ''Alice'', graduationYear := ''2022'',
                    currentStatus := ''alumni'', submissionDate := Some 1672531200000,
                    rowId := 2 \<rparr>,
      blankPerson \<lparr> email := ''a@x.com'', name := ''Alice A.'', graduationYear := ''2022'',
                    currentStatus := ''alumni'', submissionDate := Some 1717200000000,
                    rowId := 3 \<rparr>]
   = [blankPerson \<lparr> email := ''a@x.com'', name := ''Alice A.'', graduationYear := ''2022'',
                    currentStatus := ''alumni'', submissionDate := Some 1717200000000,
                    rowId := 3 \<rparr>]"
  by (simp add: normalizer_eval column_eval string_eval parseInt_eval dedup_eval)

section \<open>Facts about the merger\<close>

lemma mapE_Inr_iff: "mapE f xs = Inr ys \<longleftrightarrow> list_all2 (\<lambda>x y. f x = Inr y) xs ys"
proof (induction xs arbitrary: ys)
  case Nil
  show ?case by auto
next
  case (Cons x xs)
  show ?case
  proof (cases "f x")
    case (Inl err)
    then show ?thesis by (auto simp: list_all2_Cons1)
  next
    case (Inr y)
    show ?thesis
    proof (cases "mapE f xs")
      case (Inl err)
      with Inr Cons.IH show ?thesis by (auto simp: list_all2_Cons1)
    next
      case inner: (Inr zs)
      with Inr Cons.IH show ?thesis by (auto simp: list_all2_Cons1)
    qed
  qed
qed

lemma optToLowerCase_Inr_iff:
  "optToLowerCase v = Inr w \<longleftrightarrow>
   (v = Undefined \<and> w = Undefined) \<or> (\<exists>s. v = Str s \<and> w = Str (toLowerCase s))"
  by (cases v) auto

lemma currentEmailSet_mem:
  assumes "currentEmailSet currentData = Inr emailSet"
  shows "v \<in> set emailSet \<longleftrightarrow>
         (\<exists>r\<in>set currentData. \<exists>s. getProp r ''email'' = Str s \<and> s \<noteq> [] \<and> v = Str (toLowerCase s))"
proof -
  from assms obtain lowered where
    l: "list_all2 (\<lambda>person w. optToLowerCase (getProp person ''email'') = Inr w) currentData lowered"
    and es: "emailSet = filter truthy lowered"
    by (auto simp: currentEmailSet_def mapE_Inr_iff split: sum.splits)
  show ?thesis
  proof
    assume "v \<in> set emailSet"
    then have v: "v \<in> set lowered" "truthy v" by (simp_all add: es)
    from v(1) obtain i where i: "i < length lowered" "lowered ! i = v"
      by (auto simp: in_set_conv_nth)
    with l have "currentData ! i \<in> set currentData"
      "optToLowerCase (getProp (currentData ! i) ''email'') = Inr v"
      by (auto simp: list_all2_conv_all_nth)
    then obtain r where r: "r \<in> set currentData" "optToLowerCase (getProp r ''email'') = Inr v"
      by blast
    from r(2) v(2) obtain s where "getProp r ''email'' = Str s" "v = Str (toLowerCase s)"
      by (auto simp: optToLowerCase_Inr_iff)
    moreover from this v(2) have "s \<noteq> []" by (auto simp: toLowerCase_def)
    ultimately show "\<exists>r\<in>set currentData. \<exists>s. getProp r ''email'' = Str s \<and> s \<noteq> [] \<and>
        v = Str (toLowerCase s)" using r(1) by blast
  next
    assume "\<exists>r\<in>set currentData. \<exists>s. getProp r ''email'' = Str s \<and> s \<noteq> [] \<and>
        v = Str (toLowerCase s)"
    then obtain r s where r: "r \<in> set currentData" "getProp r ''email'' = Str s" "s \<noteq> []"
      "v = Str (toLowerCase s)" by blast
    from r(1) obtain i where i: "i < length currentData" "currentData ! i = r"
      by (auto simp: in_set_conv_nth)
    with l have "optToLowerCase (getProp r ''email'') = Inr (lowered ! i)" "i < length lowered"
      by (auto simp: list_all2_conv_all_nth)
    with r have "v = lowered ! i" "i < length lowered" by simp_all
    then have "v \<in> set lowered" by simp
    moreover have "truthy v" using r(3,4) by (simp add: toLowerCase_def)
    ultimately show "v \<in> set emailSet" by (simp add: es)
  qed
qed

lemma currentEmailSet_Inr_iff:
  "(\<exists>emailSet. currentEmailSet currentData = Inr emailSet) \<longleftrightarrow>
   (\<forall>r\<in>set currentData. getProp r ''email'' = Undefined \<or> (\<exists>s. getProp r ''email'' = Str s))"
proof (induction currentData)
  case Nil
  show ?case by (simp add: currentEmailSet_def)
next
  case (Cons r rs)
  have ih: "(\<exists>ys. mapE (\<lambda>person. optToLowerCase (getProp person ''email'')) rs = Inr ys) \<longleftrightarrow>
      (\<forall>r\<in>set rs. getProp r ''email'' = Undefined \<or> (\<exists>s. getProp r ''email'' = Str s))"
    using Cons.IH by (auto simp: currentEmailSet_def split: sum.splits)
  show ?case
    using ih
    by (cases "getProp r ''email''";
        cases "mapE (\<lambda>person. optToLowerCase (getProp person ''email'')) rs")
       (auto simp: currentEmailSet_def)
qed

lemma existingPerson_Inr_iff:
  "(\<exists>ob. existingPerson t c = Inr ob) \<longleftrightarrow>
   (getProp c ''email'' = Undefined \<or> (\<exists>s. getProp c ''email'' = Str s))"
  by (cases "getProp c ''email''") (auto simp: existingPerson_def)

lemma mapE_total:
  "(\<forall>x\<in>set xs. \<exists>y. f x = Inr y) \<Longrightarrow> \<exists>ys. mapE f xs = Inr ys"
  by (induction xs) auto

lemma existingPeople_nth:
  assumes "mapE (\<lambda>(k, currentPerson). existingPerson (clock k) currentPerson)
             (enumerate 0 currentData) = Inr existingPeople"
  shows "length existingPeople = length currentData"
    and "k < length currentData \<Longrightarrow>
         existingPerson (clock k) (currentData ! k) = Inr (existingPeople ! k)"
proof -
  from assms have l: "list_all2 (\<lambda>x y. (case x of (k, currentPerson) \<Rightarrow>
      existingPerson (clock k) currentPerson) = Inr y) (enumerate 0 currentData) existingPeople"
    by (simp add: mapE_Inr_iff)
  then show len: "length existingPeople = length currentData"
    by (auto dest: list_all2_lengthD)
  assume k: "k < length currentData"
  with l have "(case enumerate 0 currentData ! k of (k, currentPerson) \<Rightarrow>
      existingPerson (clock k) currentPerson) = Inr (existingPeople ! k)"
    by (auto simp: list_all2_conv_all_nth)
  with k show "existingPerson (clock k) (currentData ! k) = Inr (existingPeople ! k)"
    by (simp add: nth_enumerate_eq)
qed

lemma merge_Inr:
  assumes "mergeNetworkingData onboardingData currentData clock = Inr merged"
  obtains emailSet existingPeople where
    "currentEmailSet currentData = Inr emailSet"
    "mapE (\<lambda>(k, currentPerson). existingPerson (clock k) currentPerson)
       (enumerate 0 currentData) = Inr existingPeople"
    "merged = existingPeople @
       map objOfPerson (filter (\<lambda>p. Str (email p) \<notin> set emailSet) onboardingData)"
  using assms by (auto simp: mergeNetworkingData_def split: sum.splits)

lemma merge_Inr_iff:
  "(\<exists>merged. mergeNetworkingData onboardingData currentData clock = Inr merged) \<longleftrightarrow>
   (\<forall>r\<in>set currentData. getProp r ''email'' = Undefined \<or> (\<exists>s. getProp r ''email'' = Str s))"
proof
  assume "\<exists>merged. mergeNetworkingData onboardingData currentData clock = Inr merged"
  then obtain merged where "mergeNetworkingData onboardingData currentData clock = Inr merged" ..
  then obtain emailSet where "currentEmailSet currentData = Inr emailSet"
    by (rule merge_Inr)
  then show "\<forall>r\<in>set currentData. getProp r ''email'' = Undefined \<or>
      (\<exists>s. getProp r ''email'' = Str s)"
    using currentEmailSet_Inr_iff by blast
next
  assume a: "\<forall>r\<in>set currentData. getProp r ''email'' = Undefined \<or>
      (\<exists>s. getProp r ''email'' = Str s)"
  then obtain emailSet where es: "currentEmailSet currentData = Inr emailSet"
    using currentEmailSet_Inr_iff by blast
  have "\<forall>x\<in>set (enumerate 0 currentData).
      \<exists>y. (case x of (k, currentPerson) \<Rightarrow> existingPerson (clock k) currentPerson) = Inr y"
    using a existingPerson_Inr_iff by (auto simp: in_set_enumerate_eq)
  then obtain existingPeople where
    "mapE (\<lambda>(k, currentPerson). existingPerson (clock k) currentPerson)
       (enumerate 0 currentData) = Inr existingPeople"
    using mapE_total by blast
  with es show "\<exists>merged. mergeNetworkingData onboardingData currentData clock = Inr merged"
    by (simp add: mergeNetworkingData_def)
qed

lemma getProp_objOfPerson_email: "getProp (objOfPerson p) ''email'' = Str (email p)"
  by (simp add: getProp_def objOfPerson_def)

lemma orElse_lowered:
  "optToLowerCase v = Inr w \<Longrightarrow>
   orElse w (Str []) = (case v of Str s \<Rightarrow> Str (toLowerCase s) | _ \<Rightarrow> Str [])"
  by (cases v) (auto simp: orElse_def toLowerCase_def)

lemma existingPerson_Inr:
  assumes "existingPerson t c = Inr ob"
  shows "ob =
     [(''email'', (case getProp c ''email'' of Str s \<Rightarrow> Str (toLowerCase s) | _ \<Rightarrow> Str [])),
      (''name'', orElse (getProp c ''name'') (Str [])),
      (''company'', orElse (getProp c ''company'') (Str [])),
      (''position'', orElse (getProp c ''position'') (Str [])),
      (''location'', orElse (getProp c ''location'') (Str [])),
      (''linkedin'', orElse (getProp c ''linkedin'') (Str [])),
      (''github'', orElse (getProp c ''github'') (Str [])),
      (''graduationYear'', orElse (getProp c ''graduationYear'') (Str [])),
      (''currentStatus'', orElse (getProp c ''currentStatus'') (Str ''current'')),
      (''submissionDate'', DateV (Some t)),
      (''rowId'', orElse (getProp c ''id'') (Num 0))]"
proof -
  from assms obtain lowered where l: "optToLowerCase (getProp c ''email'') = Inr lowered"
    by (cases "optToLowerCase (getProp c ''email'')") (simp_all add: existingPerson_def)
  from assms show ?thesis
    by (simp add: existingPerson_def l orElse_lowered [OF l])
qed

lemma existingPerson_email:
  assumes "existingPerson t c = Inr ob"
  shows "getProp ob ''email'' =
           (case getProp c ''email'' of Str s \<Rightarrow> Str (toLowerCase s) | _ \<Rightarrow> Str [])"
  unfolding existingPerson_Inr [OF assms] by (simp add: getProp_def)

text \<open>What the normalizer and the deduplicator hand to the merger.\<close>

lemma normalizeRow_email_normalized:
  assumes "normalizeRow e headers i row = Some p"
  shows "email p \<noteq> [] \<and> toLowerCase (email p) = email p"
proof -
  from assms obtain s where "email p = toLowerCase (trim s)" "trim s \<noteq> []"
    by (auto simp: normalizeRow_def split: option.splits if_splits)
  then show ?thesis
    by (simp add: toLowerCase_idem toLowerCase_Nil_iff)
qed

lemma pipeline_emails_normalized:
  assumes "getOnboardingData e rows = Inr data"
  shows "\<forall>p\<in>set (deduplicateOnboardingData data).
           email p \<noteq> [] \<and> toLowerCase (email p) = email p"
proof
  fix p assume "p \<in> set (deduplicateOnboardingData data)"
  then have p: "p \<in> set data" using deduplicate_subset by blast
  show "email p \<noteq> [] \<and> toLowerCase (email p) = email p"
  proof (cases rows)
    case Nil
    with assms p show ?thesis by (simp add: getOnboardingData_def)
  next
    case (Cons headers body)
    with assms have "getOnboardingData e (headers # body) = Inr data" by simp
    then have "data = rowLoop e headers 1 body"
      by (rule getOnboardingData_Inr)
    with p obtain j where "normalizeRow e headers (1 + j) (body ! j) = Some p"
      by (auto simp: rowLoop_mem)
    then show ?thesis by (rule normalizeRow_email_normalized)
  qed
qed

lemmas merge_eval =
  mergeNetworkingData_def currentEmailSet_def existingPerson_def getProp_def orElse_def
  objOfPerson_def exampleAlice_def exampleBob_def exampleBobRow_def exampleKeptBob_def
  blankPerson_def exampleEnv_def

lemma example_merge:
  "mergeNetworkingData [exampleAlice, exampleBob] [exampleBobRow] (now exampleEnv)
   = Inr [exampleKeptBob 1800000000000 2, objOfPerson exampleAlice]"
  by (simp add: merge_eval string_eval)

section \<open>Conservativity\<close>

text \<open>
  Claim C1, as the code has it. In a merge that returns, the object kept for the existing
  row \<open>k\<close> stands at position \<open>k\<close> and is built from that row alone, whatever the new
  persons are. It has eleven properties: \<open>email\<close> is the row's email lower-cased (empty
  when the row has none); \<open>name\<close>, \<open>company\<close>, \<open>position\<close>, \<open>location\<close>,
  \<open>linkedin\<close>, \<open>github\<close> and \<open>graduationYear\<close> are the row's values, or the empty string
  where the row's value is missing or empty; \<open>currentStatus\<close> is the row's value, or
  \<open>'current'\<close>; \<open>submissionDate\<close> is the time of the merge; \<open>rowId\<close> is the row's
  \<open>id\<close>, or 0. The kept object is therefore not the row field for field: in the
  counterexample below the email is rewritten, \<open>notes\<close> and \<open>id\<close> are dropped, and
  \<open>currentStatus\<close> and \<open>submissionDate\<close> are filled in.
\<close>

theorem merge_keeps_existing:
  assumes "mergeNetworkingData new cur clock = Inr merged" and "k < length cur"
  shows "k < length merged \<and>
         map fst (merged ! k) =
           [''email'', ''name'', ''company'', ''position'', ''location'', ''linkedin'',
            ''github'', ''graduationYear'', ''currentStatus'', ''submissionDate'', ''rowId''] \<and>
         getProp (merged ! k) ''email'' =
           (case getProp (cur ! k) ''email'' of Str s \<Rightarrow> Str (toLowerCase s) | _ \<Rightarrow> Str []) \<and>
         (\<forall>f\<in>set [''name'', ''company'', ''position'', ''location'', ''linkedin'', ''github'',
                    ''graduationYear''].
            getProp (merged ! k) f = orElse (getProp (cur ! k) f) (Str [])) \<and>
         getProp (merged ! k) ''currentStatus'' =
           orElse (getProp (cur ! k) ''currentStatus'') (Str ''current'') \<and>
         getProp (merged ! k) ''submissionDate'' = DateV (Some (clock k)) \<and>
         getProp (merged ! k) ''rowId'' = orElse (getProp (cur ! k) ''id'') (Num 0) \<and>
         (\<forall>new' merged'. mergeNetworkingData new' cur clock = Inr merged' \<longrightarrow>
            merged' ! k = merged ! k)"
proof -
  from assms(1) obtain emailSet existingPeople where
    ex: "mapE (\<lambda>(k, currentPerson). existingPerson (clock k) currentPerson)
           (enumerate 0 cur) = Inr existingPeople"
    and m: "merged = existingPeople @
           map objOfPerson (filter (\<lambda>p. Str (email p) \<notin> set emailSet) new)"
    by (rule merge_Inr)
  note nth = existingPeople_nth [OF ex]
  have k: "k < length existingPeople" using nth(1) assms(2) by simp
  then have mk: "merged ! k = existingPeople ! k" by (simp add: m nth_append)
  have e: "existingPerson (clock k) (cur ! k) = Inr (merged ! k)"
    using nth(2) [OF assms(2)] mk by simp
  note lit = existingPerson_Inr [OF e]
  have indep: "merged' ! k = merged ! k"
    if "mergeNetworkingData new' cur clock = Inr merged'" for new' merged'
  proof -
    from that obtain emailSet' existingPeople' where
      ex': "mapE (\<lambda>(k, currentPerson). existingPerson (clock k) currentPerson)
             (enumerate 0 cur) = Inr existingPeople'"
      and m': "merged' = existingPeople' @
             map objOfPerson (filter (\<lambda>p. Str (email p) \<notin> set emailSet') new')"
      by (rule merge_Inr)
    from ex ex' have "existingPeople' = existingPeople" by simp
    with m' k mk show ?thesis by (simp add: nth_append)
  qed
  have len: "k < length merged" using k by (simp add: m)
  have keys: "map fst (merged ! k) =
           [''email'', ''name'', ''company'', ''position'', ''location'', ''linkedin'',
            ''github'', ''graduationYear'', ''currentStatus'', ''submissionDate'', ''rowId'']"
    by (subst lit) simp
  have em: "getProp (merged ! k) ''email'' =
           (case getProp (cur ! k) ''email'' of Str s \<Rightarrow> Str (toLowerCase s) | _ \<Rightarrow> Str [])"
    by (rule existingPerson_email [OF e])
  have pass: "\<forall>f\<in>set [''name'', ''company'', ''position'', ''location'', ''linkedin'', ''github'',
                    ''graduationYear''].
            getProp (merged ! k) f = orElse (getProp (cur ! k) f) (Str [])"
    by (subst lit) (simp add: getProp_def)
  have st: "getProp (merged ! k) ''currentStatus'' =
           orElse (getProp (cur ! k) ''currentStatus'') (Str ''current'')"
    by (subst lit) (simp add: getProp_def)
  have sd: "getProp (merged ! k) ''submissionDate'' = DateV (Some (clock k))"
    by (subst lit) (simp add: getProp_def)
  have ri: "getProp (merged ! k) ''rowId'' = orElse (getProp (cur ! k) ''id'') (Num 0)"
    by (subst lit) (simp add: getProp_def)
  from len keys em pass st sd ri indep show ?thesis by (intro conjI allI impI) assumption+
qed

theorem merge_keeps_existing_witness:
  "mergeNetworkingData [exampleAlice, exampleBob] [exampleBobRow] (now exampleEnv)
   = Inr [exampleKeptBob 1800000000000 2, objOfPerson exampleAlice] \<and>
   getProp (exampleKeptBob 1800000000000 2) ''email'' = Str ''bob@x.com'' \<and>
   getProp (exampleKeptBob 1800000000000 2) ''name'' = Str ''Bob'' \<and>
   getProp (exampleKeptBob 1800000000000 2) ''currentStatus'' = Str ''current'' \<and>
   getProp (exampleKeptBob 1800000000000 2) ''submissionDate'' = DateV (Some 1800000000000) \<and>
   getProp (exampleKeptBob 1800000000000 2) ''rowId'' = Num 2"
proof -
  let ?merged = "[exampleKeptBob 1800000000000 2, objOfPerson exampleAlice]"
  have h2: "(0::nat) < length [exampleBobRow]" by simp
  note t = merge_keeps_existing [OF example_merge h2]
  have src: "getProp exampleBobRow ''email'' = Str ''Bob@X.com''"
    "getProp exampleBobRow ''name'' = Str ''Bob''"
    "getProp exampleBobRow ''currentStatus'' = Undefined"
    "getProp exampleBobRow ''id'' = Num 2"
    by (simp_all add: getProp_def exampleBobRow_def)
  have c1: "getProp (?merged ! 0) ''email'' = Str ''bob@x.com''"
    using t src(1) by (simp add: string_eval)
  have "getProp (?merged ! 0) ''name'' = orElse (getProp exampleBobRow ''name'') (Str [])"
    using t by simp
  then have c2: "getProp (?merged ! 0) ''name'' = Str ''Bob''"
    by (simp only: src(2) orElse_def truthy.simps) simp
  have c3: "getProp (?merged ! 0) ''currentStatus'' = Str ''current''"
    using t src(3) by (simp add: orElse_def)
  have c4: "getProp (?merged ! 0) ''submissionDate'' = DateV (Some 1800000000000)"
    using t by (simp add: exampleEnv_def)
  have c5: "getProp (?merged ! 0) ''rowId'' = Num 2"
    using t src(4) by (simp add: orElse_def)
  from example_merge c1 c2 c3 c4 c5 show ?thesis by simp
qed

theorem merge_keeps_existing_counterexample:
  "mergeNetworkingData [] [exampleBobRow] (now exampleEnv) = Inr [exampleKeptBob 1800000000000 2] \<and>
   exampleKeptBob 1800000000000 2 \<noteq> exampleBobRow \<and>
   getProp exampleBobRow ''email'' = Str ''Bob@X.com'' \<and>
   getProp (exampleKeptBob 1800000000000 2) ''email'' = Str ''bob@x.com'' \<and>
   getProp exampleBobRow ''notes'' = Str ''met at the fair'' \<and>
   getProp (exampleKeptBob 1800000000000 2) ''notes'' = Undefined \<and>
   getProp exampleBobRow ''id'' = Num 2 \<and>
   getProp (exampleKeptBob 1800000000000 2) ''id'' = Undefined \<and>
   getProp exampleBobRow ''currentStatus'' = Undefined \<and>
   getProp (exampleKeptBob 1800000000000 2) ''currentStatus'' = Str ''current'' \<and>
   getProp exampleBobRow ''submissionDate'' = Undefined \<and>
   getProp (exampleKeptBob 1800000000000 2) ''submissionDate'' = DateV (Some 1800000000000)"
  by (simp add: merge_eval string_eval)

section \<open>No collision among the added\<close>





section \<open>Idempotence of the merge\<close>

text \<open>
  Claim C5. With new persons whose emails are not empty and lower-cased (as the normalizer
  makes them), when a merge returns and its output is given back as the existing rows, the
  second merge with the same new persons returns too and adds nothing.
\<close>

theorem merge_idempotent:
  assumes "\<forall>p\<in>set new. email p \<noteq> [] \<and> toLowerCase (email p) = email p"
    and "mergeNetworkingData new cur clock = Inr merged"
  shows "\<exists>merged'. mergeNetworkingData new merged clock' = Inr merged' \<and>
           drop (length merged) merged' = []"
proof -
  from assms(2) obtain emailSet existingPeople where
    es: "currentEmailSet cur = Inr emailSet"
    and ex: "mapE (\<lambda>(k, currentPerson). existingPerson (clock k) currentPerson)
           (enumerate 0 cur) = Inr existingPeople"
    and m: "merged = existingPeople @
           map objOfPerson (filter (\<lambda>p. Str (email p) \<notin> set emailSet) new)"
    by (rule merge_Inr)
  note nth = existingPeople_nth [OF ex]
  have kept: "\<exists>s. getProp r ''email'' = Str s" if "r \<in> set existingPeople" for r
  proof -
    from that obtain k where k: "k < length existingPeople" "existingPeople ! k = r"
      by (auto simp: in_set_conv_nth)
    then have "existingPerson (clock k) (cur ! k) = Inr r"
      using nth by simp
    from existingPerson_email [OF this] show ?thesis
      by (cases "getProp (cur ! k) ''email''") simp_all
  qed
  have "\<forall>r\<in>set merged. getProp r ''email'' = Undefined \<or> (\<exists>s. getProp r ''email'' = Str s)"
    using kept by (auto simp: m getProp_objOfPerson_email)
  then obtain merged' where second: "mergeNetworkingData new merged clock' = Inr merged'"
    using merge_Inr_iff by blast
  then obtain emailSet' existingPeople' where
    es': "currentEmailSet merged = Inr emailSet'"
    and ex': "mapE (\<lambda>(k, currentPerson). existingPerson (clock' k) currentPerson)
           (enumerate 0 merged) = Inr existingPeople'"
    and m': "merged' = existingPeople' @
           map objOfPerson (filter (\<lambda>p. Str (email p) \<notin> set emailSet') new)"
    by (rule merge_Inr)
  have known: "Str (email p) \<in> set emailSet'" if p: "p \<in> set new" for p
  proof -
    from p assms(1) have ne: "email p \<noteq> []" and low: "toLowerCase (email p) = email p"
      by blast+
    have "\<exists>r\<in>set merged. getProp r ''email'' = Str (email p)"
    proof (cases "Str (email p) \<in> set emailSet")
      case True
      then obtain c s where c: "c \<in> set cur" "getProp c ''email'' = Str s"
        "email p = toLowerCase s"
        unfolding currentEmailSet_mem [OF es] by auto
      from c(1) obtain k where k: "k < length cur" "cur ! k = c"
        by (auto simp: in_set_conv_nth)
      then have e: "existingPerson (clock k) c = Inr (existingPeople ! k)"
        using nth(2) by blast
      have "getProp (existingPeople ! k) ''email'' = Str (email p)"
        using existingPerson_email [OF e] c(2,3) by simp
      moreover have "existingPeople ! k \<in> set merged"
        using k(1) nth(1) by (simp add: m)
      ultimately show ?thesis by blast
    next
      case False
      with p have "objOfPerson p \<in> set merged" by (simp add: m)
      then show ?thesis using getProp_objOfPerson_email by blast
    qed
    then obtain r where r: "r \<in> set merged" "getProp r ''email'' = Str (email p)" by blast
    have "\<exists>r\<in>set merged. \<exists>s. getProp r ''email'' = Str s \<and> s \<noteq> [] \<and>
        Str (email p) = Str (toLowerCase s)"
      using r ne low by (intro bexI [of _ r] exI [of _ "email p"]) simp_all
    then show ?thesis
      by (simp only: currentEmailSet_mem [OF es'])
  qed
  then have "filter (\<lambda>p. Str (email p) \<notin> set emailSet') new = []"
    by (simp add: filter_empty_conv)
  moreover have "length existingPeople' = length merged"
    by (rule existingPeople_nth(1) [OF ex'])
  ultimately have "drop (length merged) merged' = []" by (simp add: m')
  with second show ?thesis by blast
qed

theorem merge_idempotent_witness:
  "mergeNetworkingData [exampleAlice, exampleBob] [exampleBobRow] (now exampleEnv)
   = Inr [exampleKeptBob 1800000000000 2, objOfPerson exampleAlice] \<and>
   toLowerCase (email exampleAlice) = email exampleAlice \<and>
   toLowerCase (email exampleBob) = email exampleBob \<and>
   mergeNetworkingData [exampleAlice, exampleBob]
     [exampleKeptBob 1800000000000 2, objOfPerson exampleAlice] (now exampleEnv)
   = Inr [exampleKeptBob 1800000000000 0,
          [(''email'', Str ''alice@x.com''), (''name'', Str ''Alice''), (''company'', Str []),
           (''position'', Str []), (''location'', Str []), (''linkedin'', Str []),
           (''github'', Str []), (''graduationYear'', Str []),
           (''currentStatus'', Str ''current''),
           (''submissionDate'', DateV (Some 1800000000001)), (''rowId'', Num 0)]] \<and>
   drop (length [exampleKeptBob 1800000000000 2, objOfPerson exampleAlice])
     [exampleKeptBob 1800000000000 0,
          [(''email'', Str ''alice@x.com''), (''name'', Str ''Alice''), (''company'', Str []),
           (''position'', Str []), (''location'', Str []), (''linkedin'', Str []),
           (''github'', Str []), (''graduationYear'', Str []),
           (''currentStatus'', Str ''current''),
           (''submissionDate'', DateV (Some 1800000000001)), (''rowId'', Num 0)]] = []"
proof -
  let ?merged = "[exampleKeptBob 1800000000000 2, objOfPerson exampleAlice]"
  let ?second = "[exampleKeptBob 1800000000000 0,
          [(''email'', Str ''alice@x.com''), (''name'', Str ''Alice''), (''company'', Str []),
           (''position'', Str []), (''location'', Str []), (''linkedin'', Str []),
           (''github'', Str []), (''graduationYear'', Str []),
           (''currentStatus'', Str ''current''),
           (''submissionDate'', DateV (Some 1800000000001)), (''rowId'', Num 0)]]"
  have low: "toLowerCase (email exampleAlice) = email exampleAlice"
    "toLowerCase (email exampleBob) = email exampleBob"
    by (simp_all add: exampleAlice_def exampleBob_def string_eval)
  have ne: "email exampleAlice \<noteq> []" "email exampleBob \<noteq> []"
    by (simp_all add: exampleAlice_def exampleBob_def)
  have h1: "\<forall>p\<in>set [exampleAlice, exampleBob]. email p \<noteq> [] \<and> toLowerCase (email p) = email p"
    using low ne by simp
  have run2: "mergeNetworkingData [exampleAlice, exampleBob] ?merged (now exampleEnv) = Inr ?second"
    by (simp add: merge_eval string_eval)
  from merge_idempotent [OF h1 example_merge, of "now exampleEnv"]
  obtain merged' where "mergeNetworkingData [exampleAlice, exampleBob] ?merged (now exampleEnv)
      = Inr merged'" "drop (length ?merged) merged' = []" by blast
  with run2 have "drop (length ?merged) ?second = []" by simp
  with example_merge low run2 show ?thesis by (simp only: simp_thms)
qed

end
